theory Spec2Isabelle
  imports Complex_Main
begin

section \<open>JavaScript values read by the document hooks\<close>

text \<open>
  The hooks receive camera and view state as \<^verbatim>\<open>Record<string, unknown>\<close>. Such a record is
  an association list from property names to values; a number is a rational (every finite
  double is one; the arithmetic of the model is exact), and \<open>None\<close> stands for \<^verbatim>\<open>NaN\<close>
  where a number is expected. Arrays and file maps are only ever compared by identity,
  so they are references (addresses).
\<close>

datatype jsval = JUndefined | JNull | JNum rat | JObj "(string \<times> jsval) list"

type_synonym js_record = "(string \<times> jsval) list"

type_synonym ref = nat

definition getProp :: "js_record \<Rightarrow> string \<Rightarrow> jsval" where
  "getProp r k = (case map_of r k of None \<Rightarrow> JUndefined | Some v \<Rightarrow> v)"

text \<open>\<^verbatim>\<open>a ?? d\<close>\<close>

fun nullish :: "jsval \<Rightarrow> jsval \<Rightarrow> jsval" where
  "nullish JUndefined d = d"
| "nullish JNull d = d"
| "nullish v d = v"

text \<open>\<^verbatim>\<open>(z as { value?: number })?.value\<close>\<close>

fun optValue :: "jsval \<Rightarrow> jsval" where
  "optValue (JObj fields) = getProp fields ''value''"
| "optValue v = JUndefined"

text \<open>Numeric coercion of the operand of \<^verbatim>\<open>*\<close> and \<^verbatim>\<open>Math.round\<close>; \<open>None\<close> is \<^verbatim>\<open>NaN\<close>.\<close>

fun toNumber :: "jsval \<Rightarrow> rat option" where
  "toNumber (JNum r) = Some r"
| "toNumber JNull = Some 0"
| "toNumber JUndefined = None"
| "toNumber (JObj fields) = None"

text \<open>\<^verbatim>\<open>Math.round\<close>: the nearest integer, halves towards plus infinity.\<close>

definition mathRound :: "rat \<Rightarrow> int" where
  "mathRound r = \<lfloor>r + 1 / 2\<rfloor>"

text \<open>\<^verbatim>\<open>Object.keys(r).length > 0\<close>\<close>

definition hasKeys :: "js_record \<Rightarrow> bool" where
  "hasKeys r = (r \<noteq> [])"

section \<open>use-document-scene.ts\<close>

subsection \<open>computeViewerCameraSig\<close>

text \<open>
  The function returns \<^verbatim>\<open>JSON.stringify({zoom, scrollX, scrollY})\<close>. The JSON text of an
  object with these three numeric fields, in this key order, is represented by the three
  serialised fields themselves (\<open>None\<close> is the text \<^verbatim>\<open>null\<close> that \<^verbatim>\<open>NaN\<close> serialises to).
\<close>

datatype cam_sig = CamSig (sig_zoom: "rat option") (sig_scrollX: "int option") (sig_scrollY: "int option")

definition computeViewerCameraSig :: "js_record \<Rightarrow> cam_sig" where
  "computeViewerCameraSig viewerState =
     (let zoomValue = toNumber (nullish (optValue (getProp viewerState ''zoom'')) (JNum 1));
          scrollX = toNumber (nullish (getProp viewerState ''scrollX'') (JNum 0));
          scrollY = toNumber (nullish (getProp viewerState ''scrollY'') (JNum 0))
      in CamSig (map_option (\<lambda>z. of_int (mathRound (z * 1000)) / 1000) zoomValue)
                (map_option mathRound scrollX)
                (map_option mathRound scrollY))"

subsection \<open>State of useDocumentScene\<close>

datatype save_status = Idle | Dirty | Saving | Saved int | Error "string option"

text \<open>
  The props of the hook, its two React states, its refs, and the three properties of
  \<^verbatim>\<open>globalThis\<close> it reads and writes. Times are milliseconds (\<^verbatim>\<open>Date.now()\<close>).
\<close>

record scene_state =
  waId :: string
  enabled :: bool
  isUnlocked :: bool
  autoLoadOnMount :: bool
  loading :: bool
  saveState :: save_status
  lastSavedSigRef :: "string option"
  ignoreChangesUntilRef :: int
  isSavingRef :: bool
  hasLocalEditsSinceSavingRef :: bool
  initialSceneAppliedRef :: bool
  latestElementsRef :: "ref option"
  latestAppStateRef :: "js_record option"
  latestFilesRef :: "ref option"
  latestSigRef :: "string option"
  lastScheduledSigRef :: "string option"
  lastLoadedWaIdRef :: "string option"
  viewerAppStateRef :: js_record
  lastSavedViewerSigRef :: "cam_sig option"
  editorAppStateRef :: js_record
  lastSavedEditorSigRef :: "cam_sig option"
  isDirtyRef :: bool
  docIsSaving :: bool
  docHasLocalEditsDuringSave :: bool
  docIgnoreChangesUntil :: "int option"
  apiRef :: bool

text \<open>
  \<open>apiRef\<close> tells whether the editor's imperative API has been handed over
  (\<^verbatim>\<open>apiRef.current\<close> is not null).
\<close>

text \<open>The state of a freshly mounted hook (the initial values of the refs and states).\<close>

definition initialState :: "string \<Rightarrow> bool \<Rightarrow> scene_state" where
  "initialState w unlocked =
     \<lparr> waId = w, enabled = True, isUnlocked = unlocked, autoLoadOnMount = True,
       loading = False, saveState = Idle, lastSavedSigRef = None,
       ignoreChangesUntilRef = 0, isSavingRef = False,
       hasLocalEditsSinceSavingRef = False, initialSceneAppliedRef = False,
       latestElementsRef = None, latestAppStateRef = None, latestFilesRef = None,
       latestSigRef = None, lastScheduledSigRef = None, lastLoadedWaIdRef = None,
       viewerAppStateRef = [], lastSavedViewerSigRef = None,
       editorAppStateRef = [], lastSavedEditorSigRef = None, isDirtyRef = False,
       docIsSaving = False, docHasLocalEditsDuringSave = False,
       docIgnoreChangesUntil = None, apiRef = False \<rparr>"

text \<open>
  The scene a controller reports as saved, and the scene \<^verbatim>\<open>toSceneFromDoc\<close> builds from a
  received document. Its elements, appState and files are only ever handed to
  \<^verbatim>\<open>computeDocumentSignature\<close>, which is not part of these sources: they are one opaque
  field, and the signature function is a parameter \<open>cds\<close> of every function that calls it.
\<close>

record 'c scene =
  content :: 'c
  viewerAppState :: "js_record option"
  editorAppState :: "js_record option"

text \<open>
  The payload handed to the idle controller. \<open>None\<close> in one of the first three fields is
  the fresh empty literal of \<^verbatim>\<open>x || []\<close> or \<^verbatim>\<open>x || {}\<close>.
\<close>

record payload =
  p_elements :: "ref option"
  p_appState :: "js_record option"
  p_files :: "ref option"
  p_viewerAppState :: js_record
  p_editorAppState :: js_record

text \<open>Calls the hook makes on its two autosave controllers.\<close>

datatype ctl_call =
    Schedule payload
  | FlushImmediate payload
  | IdleCancel
  | IntervalStop
  | IntervalStart
  | SetFlushLastSavedSig string
  | NewControllers string

subsection \<open>Callbacks given to the autosave controllers\<close>

text \<open>\<^verbatim>\<open>onSaving\<close>, the same for the idle and the interval controller.\<close>

definition onSaving :: "scene_state \<Rightarrow> scene_state" where
  "onSaving s = s\<lparr> isSavingRef := True, hasLocalEditsSinceSavingRef := False,
                    docIsSaving := True, docHasLocalEditsDuringSave := False,
                    saveState := Saving \<rparr>"

text \<open>The tail shared by both \<^verbatim>\<open>onSaved\<close> callbacks, from \<^verbatim>\<open>isSavingRef.current = false\<close> on.\<close>

definition resolveSaved :: "int \<Rightarrow> scene_state \<Rightarrow> scene_state" where
  "resolveSaved now s =
     (let s1 = s\<lparr> isSavingRef := False, docIsSaving := False, lastScheduledSigRef := None \<rparr>
      in if hasLocalEditsSinceSavingRef s1
         then s1\<lparr> isDirtyRef := True, saveState := Dirty \<rparr>
         else s1\<lparr> isDirtyRef := False, saveState := Saved now,
                   ignoreChangesUntilRef := now + 800 \<rparr>)"

text \<open>\<^verbatim>\<open>onSaved\<close> of the idle controller.\<close>

definition onSavedIdle :: "('c \<Rightarrow> string) \<Rightarrow> int \<Rightarrow> 'c scene \<Rightarrow> scene_state \<Rightarrow> scene_state" where
  "onSavedIdle cds now sc s =
     (let sig = cds (content sc);
          s1 = (if sig \<noteq> [] then s\<lparr> lastSavedSigRef := Some sig \<rparr> else s);
          viewerState = (case viewerAppState sc of None \<Rightarrow> [] | Some v \<Rightarrow> v);
          s2 = (if hasKeys viewerState
                then s1\<lparr> lastSavedViewerSigRef := Some (computeViewerCameraSig viewerState) \<rparr>
                else s1);
          editorState = (case editorAppState sc of None \<Rightarrow> [] | Some v \<Rightarrow> v);
          s3 = (if hasKeys editorState
                then s2\<lparr> lastSavedEditorSigRef := Some (computeViewerCameraSig editorState) \<rparr>
                else s2)
      in resolveSaved now s3)"

text \<open>\<^verbatim>\<open>onSaved\<close> of the interval controller.\<close>

definition onSavedInterval :: "int \<Rightarrow> scene_state \<Rightarrow> scene_state" where
  "onSavedInterval now s = resolveSaved now s"

text \<open>\<^verbatim>\<open>onError\<close>, the same for both controllers; the message may be undefined.\<close>

definition onError :: "string option \<Rightarrow> scene_state \<Rightarrow> scene_state" where
  "onError message s =
     s\<lparr> isSavingRef := False, lastScheduledSigRef := None, docIsSaving := False,
        saveState := Error message \<rparr>"

subsection \<open>handleCanvasChangeInternal\<close>

record change_args =
  elements :: ref
  appState :: js_record
  files :: ref
  viewerArg :: "js_record option"
  editorArg :: "js_record option"

text \<open>
  The throttling wrapper \<^verbatim>\<open>handleCanvasChange\<close> of the hook only decides when the intake
  runs and with which of the buffered arguments; a run of the intake is an event with
  its arguments and its time. The four early returns at the head of the intake:
\<close>

definition globalGuard :: "int \<Rightarrow> int option \<Rightarrow> bool" where
  "globalGuard now g = (case g of None \<Rightarrow> False | Some u \<Rightarrow> u \<noteq> 0 \<and> now < u)"

definition gated :: "int \<Rightarrow> scene_state \<Rightarrow> bool" where
  "gated now s =
     (\<not> enabled s \<or> waId s = [] \<or> \<not> isUnlocked s
      \<or> \<not> initialSceneAppliedRef s
      \<or> now < ignoreChangesUntilRef s
      \<or> globalGuard now (docIgnoreChangesUntil s))"

definition viewerCameraChanged :: "scene_state \<Rightarrow> change_args \<Rightarrow> bool" where
  "viewerCameraChanged s a =
     (case viewerArg a of None \<Rightarrow> False
      | Some v \<Rightarrow> Some (computeViewerCameraSig v) \<noteq> lastSavedViewerSigRef s)"

definition editorCameraChanged :: "scene_state \<Rightarrow> change_args \<Rightarrow> bool" where
  "editorCameraChanged s a =
     (case editorArg a of None \<Rightarrow> False
      | Some e \<Rightarrow> Some (computeViewerCameraSig e) \<noteq> lastSavedEditorSigRef s)"

text \<open>
  \<open>arrLen r\<close> is the length of the object at \<open>r\<close> when it is an array
  (\<^verbatim>\<open>Array.isArray(x) ? x.length : -1\<close>).
\<close>

definition lenOrMinus1 :: "(ref \<Rightarrow> nat option) \<Rightarrow> ref option \<Rightarrow> int" where
  "lenOrMinus1 arrLen r =
     (case r of None \<Rightarrow> - 1
      | Some x \<Rightarrow> (case arrLen x of None \<Rightarrow> - 1 | Some n \<Rightarrow> int n))"

definition contentChanged :: "(ref \<Rightarrow> nat option) \<Rightarrow> scene_state \<Rightarrow> change_args \<Rightarrow> bool" where
  "contentChanged arrLen s a =
     ((if Some (elements a) \<noteq> latestElementsRef s then True
       else lenOrMinus1 arrLen (latestElementsRef s) \<noteq> lenOrMinus1 arrLen (Some (elements a)))
      \<or> Some (files a) \<noteq> latestFilesRef s)"

text \<open>
  The intake. A camera ref is written only when the camera it is compared with was passed,
  so the inner \<open>case\<close> of the two updates never takes its \<open>None\<close> branch.
\<close>

definition handleCanvasChangeInternal ::
  "(ref \<Rightarrow> nat option) \<Rightarrow> int \<Rightarrow> change_args \<Rightarrow> scene_state \<Rightarrow> scene_state \<times> ctl_call list" where
  "handleCanvasChangeInternal arrLen now a s =
     (if gated now s then (s, [])
      else
        let vChanged = viewerCameraChanged s a;
            s1 = (if vChanged
                  then s\<lparr> viewerAppStateRef :=
                           (case viewerArg a of None \<Rightarrow> viewerAppStateRef s | Some v \<Rightarrow> v) \<rparr>
                  else s);
            eChanged = editorCameraChanged s a;
            s2 = (if eChanged
                  then s1\<lparr> editorAppStateRef :=
                            (case editorArg a of None \<Rightarrow> editorAppStateRef s1 | Some e \<Rightarrow> e) \<rparr>
                  else s1);
            cChanged = contentChanged arrLen s a;
            hasChangesForStatus = (cChanged \<or> eChanged);
            hasAnyChanges = (cChanged \<or> vChanged \<or> eChanged);
            s3 = s2\<lparr> latestElementsRef := Some (elements a),
                      latestAppStateRef := Some (appState a),
                      latestFilesRef := Some (files a),
                      latestSigRef := None \<rparr>;
            s4 = (if isSavingRef s3 \<and> (cChanged \<or> eChanged)
                  then s3\<lparr> hasLocalEditsSinceSavingRef := True,
                            docHasLocalEditsDuringSave := True \<rparr>
                  else s3);
            s5 = (if hasChangesForStatus \<and> \<not> isSavingRef s4 \<and> \<not> isDirtyRef s4
                  then s4\<lparr> isDirtyRef := True, saveState := Dirty \<rparr>
                  else s4)
        in if hasAnyChanges
           then (s5\<lparr> lastScheduledSigRef := None \<rparr>,
                 [Schedule \<lparr> p_elements = Some (elements a),
                             p_appState = Some (appState a),
                             p_files = Some (files a),
                             p_viewerAppState = viewerAppStateRef s5,
                             p_editorAppState = editorAppStateRef s5 \<rparr>])
           else (s5, []))"

subsection \<open>The documents:sceneApplied and documents:external-update handlers\<close>

text \<open>
  Both listeners are registered only while \<^verbatim>\<open>waId\<close> is non-empty. The event's
  \<^verbatim>\<open>String(detail?.wa_id || "")\<close> is the argument \<open>target\<close>.
\<close>

definition onSceneApplied :: "int \<Rightarrow> string \<Rightarrow> scene_state \<Rightarrow> scene_state" where
  "onSceneApplied now target s =
     (if waId s = [] then s
      else if target \<noteq> waId s then s
      else s\<lparr> initialSceneAppliedRef := True, ignoreChangesUntilRef := now + 400 \<rparr>)"

text \<open>
  The body of the external-update handler up to its last statement, which dispatches
  \<^verbatim>\<open>documents:sceneApplied\<close> for the bound \<^verbatim>\<open>waId\<close>. \<open>sc\<close> is the scene
  \<^verbatim>\<open>toSceneFromDoc\<close> returns for the received document.
\<close>

definition externalUpdateBody ::
  "('c \<Rightarrow> string) \<Rightarrow> int \<Rightarrow> 'c scene \<Rightarrow> scene_state \<Rightarrow> scene_state" where
  "externalUpdateBody cds now sc s =
     (let sig = cds (content sc);
          s1 = s\<lparr> lastLoadedWaIdRef := Some (waId s), lastSavedSigRef := Some sig \<rparr>;
          s2 = (case viewerAppState sc of
                  Some v \<Rightarrow>
                    if hasKeys v
                    then s1\<lparr> lastSavedViewerSigRef := Some (computeViewerCameraSig v),
                              viewerAppStateRef := v \<rparr>
                    else s1\<lparr> lastSavedViewerSigRef := None \<rparr>
                | None \<Rightarrow> s1\<lparr> lastSavedViewerSigRef := None \<rparr>);
          s3 = (case editorAppState sc of
                  Some e \<Rightarrow>
                    if hasKeys e
                    then s2\<lparr> lastSavedEditorSigRef := Some (computeViewerCameraSig e),
                              editorAppStateRef := e \<rparr>
                    else s2\<lparr> lastSavedEditorSigRef := None \<rparr>
                | None \<Rightarrow> s2\<lparr> lastSavedEditorSigRef := None \<rparr>)
      in s3\<lparr> docIsSaving := False, docHasLocalEditsDuringSave := False,
              saveState := Saved now, loading := False,
              ignoreChangesUntilRef := now + 1200,
              initialSceneAppliedRef := True, isDirtyRef := False \<rparr>)"

text \<open>
  The handler. \<^verbatim>\<open>window.dispatchEvent\<close> runs the listeners of the dispatched event before
  it returns, so the hook's own \<^verbatim>\<open>documents:sceneApplied\<close> listener runs at the end of
  the handler.
\<close>

definition onExternalUpdate ::
  "('c \<Rightarrow> string) \<Rightarrow> int \<Rightarrow> string \<Rightarrow> 'c scene \<Rightarrow> scene_state \<Rightarrow> scene_state \<times> ctl_call list" where
  "onExternalUpdate cds now target sc s =
     (if waId s = [] then (s, [])
      else if target = [] \<or> target \<noteq> waId s then (s, [])
      else (onSceneApplied now (waId s) (externalUpdateBody cds now sc s),
            [SetFlushLastSavedSig (cds (content sc))]))"

subsection \<open>Effects that run when the props change\<close>

text \<open>
  The load effect, up to the first \<^verbatim>\<open>await\<close> of \<^verbatim>\<open>run()\<close>. \<open>dflt\<close> is
  \<^verbatim>\<open>DEFAULT_DOCUMENT_WA_ID\<close>, imported from a module outside these sources.
\<close>

definition loadEffect :: "string \<Rightarrow> scene_state \<Rightarrow> scene_state" where
  "loadEffect dflt s =
     (if \<not> enabled s then s
      else if \<not> autoLoadOnMount s then s
      else if waId s = [] then s
      else
        let s1 = s\<lparr> initialSceneAppliedRef := False,
                      lastSavedViewerSigRef := None, viewerAppStateRef := [],
                      lastSavedEditorSigRef := None, editorAppStateRef := [] \<rparr>
        in if waId s = dflt then s1\<lparr> loading := False, saveState := Idle \<rparr>
           else if lastLoadedWaIdRef s1 = Some (waId s) then s1
           else s1\<lparr> loading := True, saveState := Idle \<rparr>)"

text \<open>The continuation of \<^verbatim>\<open>run()\<close> after \<^verbatim>\<open>requestDocumentLoad\<close>, and its catch branch.\<close>

definition loadRequested :: "int \<Rightarrow> scene_state \<Rightarrow> scene_state" where
  "loadRequested now s = s\<lparr> ignoreChangesUntilRef := now + 800 \<rparr>"

definition loadFailed :: "string option \<Rightarrow> scene_state \<Rightarrow> scene_state" where
  "loadFailed message s = s\<lparr> saveState := Error message, loading := False \<rparr>"

text \<open>The effect that creates the two controllers, and its cleanup.\<close>

definition controllersEffect :: "scene_state \<Rightarrow> scene_state \<times> ctl_call list" where
  "controllersEffect s =
     (if waId s = [] then (s, [])
      else (s\<lparr> isDirtyRef := False \<rparr>, [NewControllers (waId s)]))"

definition controllersCleanup :: "scene_state \<Rightarrow> ctl_call list" where
  "controllersCleanup s = (if waId s = [] then [] else [IdleCancel, IntervalStop])"

text \<open>
  The heartbeat effect. Its cleanup stops the interval controller when the effect had
  started it; stopping a stopped controller changes nothing, so the renders below always
  make the call.
\<close>

definition heartbeatEffect :: "scene_state \<Rightarrow> ctl_call list" where
  "heartbeatEffect s =
     (if \<not> enabled s then []
      else if waId s = [] then []
      else if \<not> isUnlocked s then []
      else if \<not> initialSceneAppliedRef s then []
      else if \<not> apiRef s then []
      else [IntervalStart])"

text \<open>
  A render with a new \<^verbatim>\<open>waId\<close>: the cleanups of the previous render's effects, then the
  effects in the order the hook declares them. Setting the id it already has runs no
  effect.
\<close>

definition switchWaId :: "string \<Rightarrow> string \<Rightarrow> scene_state \<Rightarrow> scene_state \<times> ctl_call list" where
  "switchWaId dflt w s =
     (if w = waId s then (s, [])
      else
        let cleanup = controllersCleanup s @ [IntervalStop];
            s1 = loadEffect dflt (s\<lparr> waId := w \<rparr>);
            (s2, created) = controllersEffect s1
        in (s2, cleanup @ created @ heartbeatEffect s2))"

text \<open>A render with a new \<^verbatim>\<open>isUnlocked\<close>: only the heartbeat effect runs again.\<close>

definition setUnlocked :: "bool \<Rightarrow> scene_state \<Rightarrow> scene_state \<times> ctl_call list" where
  "setUnlocked b s =
     (if b = isUnlocked s then (s, [])
      else let s1 = s\<lparr> isUnlocked := b \<rparr> in (s1, IntervalStop # heartbeatEffect s1))"

subsection \<open>flushNow and the flush on tab hide\<close>

definition latestPayload :: "scene_state \<Rightarrow> payload" where
  "latestPayload s =
     \<lparr> p_elements = latestElementsRef s, p_appState = latestAppStateRef s,
       p_files = latestFilesRef s,
       p_viewerAppState = viewerAppStateRef s, p_editorAppState = editorAppStateRef s \<rparr>"

text \<open>
  The exported \<^verbatim>\<open>flushNow\<close>. \<open>api\<close> is what the editor API returns for elements,
  appState and files when the API is present.
\<close>

definition flushNow :: "(ref \<times> js_record \<times> ref) option \<Rightarrow> scene_state \<Rightarrow> ctl_call list" where
  "flushNow api s =
     (if \<not> enabled s \<or> waId s = [] \<or> \<not> isUnlocked s then []
      else if \<not> initialSceneAppliedRef s then []
      else case api of
             Some (el, ap, fi) \<Rightarrow>
               [FlushImmediate ((latestPayload s)\<lparr> p_elements := Some el, p_appState := Some ap,
                                                    p_files := Some fi \<rparr>)]
           | None \<Rightarrow> [FlushImmediate (latestPayload s)])"

text \<open>The listener of \<^verbatim>\<open>pagehide\<close> (and of \<^verbatim>\<open>visibilitychange\<close> when the document is hidden).\<close>

definition flushOnHide :: "scene_state \<Rightarrow> ctl_call list" where
  "flushOnHide s =
     (if \<not> enabled s \<or> waId s = [] then []
      else if \<not> isUnlocked s then []
      else [FlushImmediate (latestPayload s)])"

subsection \<open>Events and runs of the hook\<close>

datatype 'c event =
    OnSavingIdle
  | OnSavedIdle int "'c scene"
  | OnErrorIdle "string option"
  | OnSavingInterval
  | OnSavedInterval int
  | OnErrorInterval "string option"
  | CanvasChange int change_args
  | ExternalUpdate int string "'c scene"
  | SceneApplied int string
  | SwitchWaId string
  | LoadRequested int
  | LoadFailed "string option"
  | SetUnlocked bool
  | SetGlobalIgnore int
  | ApiReady
  | FlushNow "(ref \<times> js_record \<times> ref) option"
  | PageHide

text \<open>
  The parameters the hook takes from outside these sources: the content signature
  \<^verbatim>\<open>computeDocumentSignature\<close>, the default document id, and the lengths of the arrays in
  the heap.
\<close>

record 'c env =
  cds :: "'c \<Rightarrow> string"
  dflt :: string
  arrLen :: "ref \<Rightarrow> nat option"

fun step :: "'c env \<Rightarrow> 'c event \<Rightarrow> scene_state \<Rightarrow> scene_state \<times> ctl_call list" where
  "step E OnSavingIdle s = (onSaving s, [])"
| "step E (OnSavedIdle now sc) s = (onSavedIdle (cds E) now sc s, [])"
| "step E (OnErrorIdle m) s = (onError m s, [])"
| "step E OnSavingInterval s = (onSaving s, [])"
| "step E (OnSavedInterval now) s = (onSavedInterval now s, [])"
| "step E (OnErrorInterval m) s = (onError m s, [])"
| "step E (CanvasChange now a) s = handleCanvasChangeInternal (arrLen E) now a s"
| "step E (ExternalUpdate now target sc) s = onExternalUpdate (cds E) now target sc s"
| "step E (SceneApplied now target) s = (onSceneApplied now target s, [])"
| "step E (SwitchWaId w) s = switchWaId (dflt E) w s"
| "step E (LoadRequested now) s = (loadRequested now s, [])"
| "step E (LoadFailed m) s = (loadFailed m s, [])"
| "step E (SetUnlocked b) s = setUnlocked b s"
| "step E (SetGlobalIgnore u) s = (s\<lparr> docIgnoreChangesUntil := Some u \<rparr>, [])"
| "step E ApiReady s = (s\<lparr> apiRef := True \<rparr>, [])"
| "step E (FlushNow api) s = (s, flushNow api s)"
| "step E PageHide s = (s, flushOnHide s)"

fun run :: "'c env \<Rightarrow> scene_state \<Rightarrow> 'c event list \<Rightarrow> scene_state" where
  "run E s [] = s"
| "run E s (e # es) = run E (fst (step E e s)) es"

subsection \<open>Predicates on states and runs\<close>

text \<open>While the status reads saved, no save is in flight and no edit was recorded during one.\<close>

definition savedImpliesQuiet :: "scene_state \<Rightarrow> bool" where
  "savedImpliesQuiet s =
     (case saveState s of
        Saved t \<Rightarrow> \<not> isSavingRef s \<and> \<not> hasLocalEditsSinceSavingRef s
      | _ \<Rightarrow> True)"

text \<open>The event is an external update that the handler applies (its id is the bound one).\<close>

fun appliesExternalUpdate :: "'c event \<Rightarrow> scene_state \<Rightarrow> bool" where
  "appliesExternalUpdate (ExternalUpdate now target sc) s = (waId s \<noteq> [] \<and> target = waId s)"
| "appliesExternalUpdate e s = False"

text \<open>
  A run in which every applied external update arrives while \<^verbatim>\<open>isSavingRef\<close> and
  \<^verbatim>\<open>hasLocalEditsSinceSavingRef\<close> are both clear.
\<close>

fun calm :: "'c env \<Rightarrow> scene_state \<Rightarrow> 'c event list \<Rightarrow> bool" where
  "calm E s [] = True"
| "calm E s (e # es) =
     ((appliesExternalUpdate e s \<longrightarrow> \<not> isSavingRef s \<and> \<not> hasLocalEditsSinceSavingRef s)
      \<and> calm E (fst (step E e s)) es)"

text \<open>The events that are calls of a controller callback.\<close>

fun isCallback :: "'c event \<Rightarrow> bool" where
  "isCallback OnSavingIdle = True"
| "isCallback (OnSavedIdle now sc) = True"
| "isCallback (OnErrorIdle m) = True"
| "isCallback OnSavingInterval = True"
| "isCallback (OnSavedInterval now) = True"
| "isCallback (OnErrorInterval m) = True"
| "isCallback e = False"

section \<open>The autosave controllers\<close>

text \<open>
  Modelled from the spec: \<^verbatim>\<open>createIdleAutosaveController\<close> and
  \<^verbatim>\<open>createIntervalAutosaveController\<close> (module \<^verbatim>\<open>@processes/documents\<close>) are missing from
  the sources. The idle scheduler records the scheduled payload as pending and (re)starts
  its timer; when the timer fires with nothing pending it does nothing, otherwise it calls
  \<^verbatim>\<open>onSaving\<close> and issues one persist; \<^verbatim>\<open>cancel\<close> clears the pending timer without
  firing; \<^verbatim>\<open>flushImmediate\<close> persists at once unless a save is already in flight. The
  heartbeat scheduler, once started, attempts a persist at every tick until it is stopped.
  Fresh controllers have nothing pending and are not started. A controller that the hook
  replaces keeps a timer that was not cancelled and a heartbeat that was not stopped:
  these are the superseded timers and heartbeats, each with the id of its controller.
\<close>

record system =
  hook :: scene_state
  idlePending :: "payload option"
  heartbeatRunning :: bool
  ctlWaId :: string
  supersededTimers :: "(string \<times> payload) list"
  supersededHeartbeats :: "string list"
  persists :: "(string \<times> payload option) list"

text \<open>
  Modelled from the spec: issuing a persist. The log \<open>persists\<close> keeps the id the
  controller was created for and the payload (\<open>None\<close> for the state the heartbeat pulls
  through its getters).
\<close>

definition issuePersist :: "string \<Rightarrow> payload option \<Rightarrow> system \<Rightarrow> system" where
  "issuePersist w p x =
     x\<lparr> hook := onSaving (hook x), persists := persists x @ [(w, p)] \<rparr>"

text \<open>Modelled from the spec: what a call of the hook does to the controllers.\<close>

fun ctlApply :: "system \<Rightarrow> ctl_call \<Rightarrow> system" where
  "ctlApply x (Schedule p) = x\<lparr> idlePending := Some p \<rparr>"
| "ctlApply x (FlushImmediate p) =
     (if docIsSaving (hook x) then x else issuePersist (ctlWaId x) (Some p) x)"
| "ctlApply x IdleCancel = x\<lparr> idlePending := None \<rparr>"
| "ctlApply x IntervalStop = x\<lparr> heartbeatRunning := False \<rparr>"
| "ctlApply x IntervalStart = x\<lparr> heartbeatRunning := True \<rparr>"
| "ctlApply x (SetFlushLastSavedSig sig) = x"
| "ctlApply x (NewControllers w) =
     x\<lparr> supersededTimers :=
          supersededTimers x @ (case idlePending x of None \<Rightarrow> [] | Some p \<Rightarrow> [(ctlWaId x, p)]),
        supersededHeartbeats :=
          supersededHeartbeats x @ (if heartbeatRunning x then [ctlWaId x] else []),
        ctlWaId := w, idlePending := None, heartbeatRunning := False \<rparr>"

text \<open>
  Modelled from the spec: the idle timer fires; the heartbeat ticks; the same for the
  oldest superseded timer and heartbeat.
\<close>

definition idleTimerFires :: "system \<Rightarrow> system" where
  "idleTimerFires x =
     (case idlePending x of
        None \<Rightarrow> x
      | Some p \<Rightarrow> issuePersist (ctlWaId x) (Some p) (x\<lparr> idlePending := None \<rparr>))"

definition heartbeatTicks :: "system \<Rightarrow> system" where
  "heartbeatTicks x = (if heartbeatRunning x then issuePersist (ctlWaId x) None x else x)"

definition supersededTimerFires :: "system \<Rightarrow> system" where
  "supersededTimerFires x =
     (case supersededTimers x of
        [] \<Rightarrow> x
      | (w, p) # rest \<Rightarrow> issuePersist w (Some p) (x\<lparr> supersededTimers := rest \<rparr>))"

definition supersededHeartbeatTicks :: "system \<Rightarrow> system" where
  "supersededHeartbeatTicks x =
     (case supersededHeartbeats x of
        [] \<Rightarrow> x
      | w # rest \<Rightarrow> issuePersist w None x)"

text \<open>
  The hook together with its controllers. An event of the hook runs the hook's code and
  then the calls that code made on the controllers.
\<close>

datatype 'c sys_event =
    Env "'c event"
  | IdleTimerFires
  | HeartbeatTicks
  | SupersededTimerFires
  | SupersededHeartbeatTicks

fun sysStep :: "'c env \<Rightarrow> 'c sys_event \<Rightarrow> system \<Rightarrow> system" where
  "sysStep E (Env e) x =
     (let (s', calls) = step E e (hook x) in foldl ctlApply (x\<lparr> hook := s' \<rparr>) calls)"
| "sysStep E IdleTimerFires x = idleTimerFires x"
| "sysStep E HeartbeatTicks x = heartbeatTicks x"
| "sysStep E SupersededTimerFires x = supersededTimerFires x"
| "sysStep E SupersededHeartbeatTicks x = supersededHeartbeatTicks x"

fun sysRun :: "'c env \<Rightarrow> system \<Rightarrow> 'c sys_event list \<Rightarrow> system" where
  "sysRun E x [] = x"
| "sysRun E x (e # es) = sysRun E (sysStep E e x) es"

text \<open>
  In the system the controllers call \<^verbatim>\<open>onSaving\<close> themselves when they issue a persist
  (\<open>issuePersist\<close>), so the environment does not; the flush on tab hide is kept apart.
\<close>

fun fromOutside :: "'c sys_event \<Rightarrow> bool" where
  "fromOutside (Env OnSavingIdle) = False"
| "fromOutside (Env OnSavingInterval) = False"
| "fromOutside (Env PageHide) = False"
| "fromOutside e = True"

text \<open>
  A run during which the initial scene of the bound document has not been applied
  (\<^verbatim>\<open>initialSceneAppliedRef\<close> stays false after every event).
\<close>

fun beforeSceneApplied :: "'c env \<Rightarrow> system \<Rightarrow> 'c sys_event list \<Rightarrow> bool" where
  "beforeSceneApplied E x [] = True"
| "beforeSceneApplied E x (e # es) =
     (fromOutside e \<and> \<not> initialSceneAppliedRef (hook (sysStep E e x))
      \<and> beforeSceneApplied E (sysStep E e x) es)"

text \<open>The page starts with the blank document and no controller.\<close>

definition initialSystem :: "bool \<Rightarrow> system" where
  "initialSystem unlocked =
     \<lparr> hook = initialState [] unlocked, idlePending = None, heartbeatRunning = False,
       ctlWaId = [], supersededTimers = [], supersededHeartbeats = [], persists = [] \<rparr>"

text \<open>
  No replaced controller has a timer or a heartbeat left, the options of the hook have
  their default values, and while no document is bound nothing is pending or running.
\<close>

definition tidy :: "system \<Rightarrow> bool" where
  "tidy x =
     (supersededTimers x = [] \<and> supersededHeartbeats x = []
      \<and> enabled (hook x) \<and> autoLoadOnMount (hook x)
      \<and> (waId (hook x) \<noteq> [] \<or> idlePending x = None \<and> \<not> heartbeatRunning x))"

section \<open>use-dual-canvas.ts\<close>








section \<open>useDocumentUnlock\<close>

text \<open>
  A JavaScript string is a list of UTF-16 code units. A cell of the customer row holds a
  value of unknown type; reading it is asynchronous and may throw or reject.
\<close>

type_synonym js_string = "nat list"

datatype cell = CString js_string | CNumber rat | CBool bool | CNull | CUndefined

datatype read_error = ReadError

definition DEFAULT_DOCUMENT_WA_ID :: string where
  "DEFAULT_DOCUMENT_WA_ID = []"

text \<open>\<^verbatim>\<open>Array.prototype.findIndex\<close>: the first index that satisfies the test, or -1.\<close>

fun findIndex :: "('a \<Rightarrow> bool) \<Rightarrow> 'a list \<Rightarrow> int" where
  "findIndex P [] = - 1"
| "findIndex P (x # xs) =
     (if P x then 0 else (let i = findIndex P xs in if i < 0 then - 1 else i + 1))"

text \<open>The white space and line terminators that \<^verbatim>\<open>String.prototype.trim\<close> removes.\<close>

definition isWhiteSpace :: "nat \<Rightarrow> bool" where
  "isWhiteSpace c =
     (c \<in> {9, 10, 11, 12, 13, 32, 160, 5760, 8232, 8233, 8239, 8287, 12288, 65279}
      \<or> (8192 \<le> c \<and> c \<le> 8202))"

definition trim :: "js_string \<Rightarrow> js_string" where
  "trim xs = rev (dropWhile isWhiteSpace (rev (dropWhile isWhiteSpace xs)))"

text \<open>\<^verbatim>\<open>s.startsWith("+")\<close>; the code unit of "+" is 43.\<close>

fun startsWithPlus :: "js_string \<Rightarrow> bool" where
  "startsWithPlus [] = False"
| "startsWithPlus (c # cs) = (c = 43)"

definition nameOk :: "cell \<Rightarrow> bool" where
  "nameOk v = (case v of CString n \<Rightarrow> length (trim n) > 0 | _ \<Rightarrow> False)"

definition phoneOk :: "cell \<Rightarrow> bool" where
  "phoneOk v = (case v of CString p \<Rightarrow> startsWithPlus (trim p) | _ \<Rightarrow> False)"

text \<open>
  \<^verbatim>\<open>recomputeUnlock\<close>. \<open>customerColumns\<close> are the ids of the column definitions,
  \<open>getCellData col row\<close> is the data source's read (\<open>Inl\<close> when it throws or rejects),
  \<open>unlocked\<close> is the \<^verbatim>\<open>isUnlocked\<close> state; the result is the state afterwards.
\<close>

definition recomputeUnlock ::
  "string \<Rightarrow> string list \<Rightarrow> (int \<Rightarrow> nat \<Rightarrow> read_error + cell) \<Rightarrow> bool \<Rightarrow> bool" where
  "recomputeUnlock w customerColumns getCellData unlocked =
     (if w = [] \<or> w = DEFAULT_DOCUMENT_WA_ID
      then (if unlocked then False else unlocked)
      else
        let nameCol = findIndex (\<lambda>c. c = ''name'') customerColumns;
            phoneCol = findIndex (\<lambda>c. c = ''phone'') customerColumns
        in case (getCellData nameCol 0, getCellData phoneCol 0) of
             (Inr nameVal, Inr phoneVal) \<Rightarrow>
               (let waIdOk = (w \<noteq> [] \<and> w \<noteq> DEFAULT_DOCUMENT_WA_ID)
                in nameOk nameVal \<and> phoneOk phoneVal \<and> waIdOk)
           | _ \<Rightarrow> False)"

section \<open>Calls that cannot lead to a persist\<close>

text \<open>Every call on the controllers except scheduling, flushing and starting the heartbeat.\<close>

fun benign :: "ctl_call \<Rightarrow> bool" where
  "benign (Schedule p) = False"
| "benign (FlushImmediate p) = False"
| "benign IntervalStart = False"
| "benign c = True"

text \<open>The call that replaces the controllers.\<close>

fun isNew :: "ctl_call \<Rightarrow> bool" where
  "isNew (NewControllers w) = True"
| "isNew c = False"

fun isSwitch :: "'c event \<Rightarrow> bool" where
  "isSwitch (SwitchWaId w) = True"
| "isSwitch e = False"

section \<open>A session used for the concrete runs\<close>

text \<open>
  The content signature of the example is the content itself, the default document id is
  the empty string, and every array has three elements.
\<close>

definition exampleEnv :: "string env" where
  "exampleEnv = \<lparr> cds = (\<lambda>c. c), dflt = [], arrLen = (\<lambda>r. Some 3) \<rparr>"

definition loadedScene :: "string scene" where
  "loadedScene = \<lparr> content = ''three-elements'', viewerAppState = None, editorAppState = None \<rparr>"

definition savedScene :: "string scene" where
  "savedScene = \<lparr> content = ''four-elements'', viewerAppState = None, editorAppState = None \<rparr>"

text \<open>A change of the editor that carries a new elements array and no camera.\<close>

definition edit :: "ref \<Rightarrow> change_args" where
  "edit el = \<lparr> elements = el, appState = [], files = 50, viewerArg = None, editorArg = None \<rparr>"

text \<open>
  The page starts with the blank document; the user selects customer 201, the customer
  row unlocks the canvas, and the document arrives at time 1000.
\<close>

definition openDocument :: "string event list" where
  "openDocument = [SwitchWaId ''201'', SetUnlocked True, ExternalUpdate 1000 ''201'' loadedScene]"

text \<open>Then an element is added at 3000 and the idle controller starts saving.\<close>

definition editAndStartSaving :: "string event list" where
  "editAndStartSaving = openDocument @ [CanvasChange 3000 (edit 11), OnSavingIdle]"

text \<open>The session after the save of the added element has been confirmed at 6300.\<close>

definition openSession :: scene_state where
  "openSession = run exampleEnv (initialState [] False) openDocument"



definition cameraAt :: "rat \<Rightarrow> rat \<Rightarrow> rat \<Rightarrow> js_record" where
  "cameraAt z x y =
     [(''zoom'', JObj [(''value'', JNum z)]), (''scrollX'', JNum x), (''scrollY'', JNum y)]"

definition cameraScene :: "string scene" where
  "cameraScene = \<lparr> content = ''three-elements'',
      viewerAppState = Some (cameraAt (3 / 2) (201 / 2) (- 7)),
      editorAppState = Some [] \<rparr>"



text \<open>
  The same session with its controllers: an edit of document 201 is scheduled and its idle
  timer is pending. Then what may happen after a switch and before the new document
  arrives.
\<close>

definition sessionHistory :: "string sys_event list" where
  "sessionHistory =
     [Env (SwitchWaId ''201''), Env (SetUnlocked True), Env ApiReady,
      Env (ExternalUpdate 1000 ''201'' loadedScene), Env (CanvasChange 3000 (edit 11))]"

definition sessionWithPendingSave :: system where
  "sessionWithPendingSave = sysRun exampleEnv (initialSystem False) sessionHistory"

definition afterSwitch :: "string sys_event list" where
  "afterSwitch = [IdleTimerFires, SupersededTimerFires, Env (CanvasChange 4000 (edit 21)),
                  HeartbeatTicks, SupersededHeartbeatTicks, Env (FlushNow (Some (21, [], 50))),
                  Env (SetUnlocked False), Env (SetUnlocked True), HeartbeatTicks,
                  IdleTimerFires]"


text \<open>
  A customer row with the columns name, age, phone, and a data source whose read of the
  phone column fails.
\<close>

definition customerRow :: "cell \<Rightarrow> cell \<Rightarrow> int \<Rightarrow> nat \<Rightarrow> read_error + cell" where
  "customerRow name phone col row =
     (if row = 0 \<and> col = 0 then Inr name
      else if row = 0 \<and> col = 2 then Inr phone
      else Inr CUndefined)"

definition failingRow :: "int \<Rightarrow> nat \<Rightarrow> read_error + cell" where
  "failingRow col row = (if col = 2 then Inl ReadError else Inr (CString [65, 110, 110]))"

section \<open>Properties of useDocumentScene\<close>

lemmas hook_defs = onSaving_def resolveSaved_def onSavedIdle_def onSavedInterval_def onError_def
  onSceneApplied_def externalUpdateBody_def onExternalUpdate_def loadEffect_def loadRequested_def
  loadFailed_def controllersEffect_def controllersCleanup_def switchWaId_def setUnlocked_def
  hasKeys_def

lemmas example_defs = exampleEnv_def loadedScene_def savedScene_def edit_def openDocument_def
  editAndStartSaving_def initialState_def

lemmas change_defs = handleCanvasChangeInternal_def gated_def globalGuard_def contentChanged_def
  viewerCameraChanged_def editorCameraChanged_def lenOrMinus1_def

subsection \<open>The change intake\<close>

lemma gated_no_effect: "gated now s \<Longrightarrow> handleCanvasChangeInternal al now a s = (s, [])"
  by (simp add: handleCanvasChangeInternal_def)

lemma change_isSaving: "isSavingRef (fst (handleCanvasChangeInternal al now a s)) = isSavingRef s"
  by (simp add: handleCanvasChangeInternal_def Let_def)

lemma change_flag_mono:
  "hasLocalEditsSinceSavingRef s \<Longrightarrow>
   hasLocalEditsSinceSavingRef (fst (handleCanvasChangeInternal al now a s))"
  by (simp add: handleCanvasChangeInternal_def Let_def)

lemma change_sets_flag:
  "\<not> gated now s \<Longrightarrow> isSavingRef s \<Longrightarrow> contentChanged al s a \<or> editorCameraChanged s a
   \<Longrightarrow> hasLocalEditsSinceSavingRef (fst (handleCanvasChangeInternal al now a s))"
  by (auto simp add: handleCanvasChangeInternal_def Let_def)

lemma change_quiet:
  "savedImpliesQuiet s \<Longrightarrow> savedImpliesQuiet (fst (handleCanvasChangeInternal al now a s))"
  by (auto simp add: handleCanvasChangeInternal_def Let_def savedImpliesQuiet_def
      split: save_status.splits)

lemma change_applied:
  "initialSceneAppliedRef (fst (handleCanvasChangeInternal al now a s)) = initialSceneAppliedRef s"
  by (simp add: handleCanvasChangeInternal_def Let_def)

lemma change_unapplied:
  "\<not> initialSceneAppliedRef s \<Longrightarrow> handleCanvasChangeInternal al now a s = (s, [])"
  by (simp add: handleCanvasChangeInternal_def gated_def)

lemma schedule_when_any_change:
  assumes "\<not> gated now s"
    and "contentChanged al s a \<or> viewerCameraChanged s a \<or> editorCameraChanged s a"
  shows "\<exists>p. snd (handleCanvasChangeInternal al now a s) = [Schedule p]"
  using assms by (auto simp: handleCanvasChangeInternal_def Let_def)






subsection \<open>Steps and runs\<close>

lemma run_append: "run E s (xs @ ys) = run E (run E s xs) ys"
  by (induction xs arbitrary: s) simp_all

lemma step_isSaving: "\<not> isCallback e \<Longrightarrow> isSavingRef (fst (step E e s)) = isSavingRef s"
  by (cases e) (simp_all add: change_isSaving hook_defs Let_def split: option.splits prod.splits)

lemma step_flag_mono:
  "e \<noteq> OnSavingIdle \<Longrightarrow> e \<noteq> OnSavingInterval \<Longrightarrow> hasLocalEditsSinceSavingRef s
   \<Longrightarrow> hasLocalEditsSinceSavingRef (fst (step E e s))"
  by (cases e) (simp_all add: change_flag_mono hook_defs Let_def split: option.splits prod.splits)

lemma step_quiet:
  assumes "savedImpliesQuiet s"
    and "appliesExternalUpdate e s \<longrightarrow> \<not> isSavingRef s \<and> \<not> hasLocalEditsSinceSavingRef s"
  shows "savedImpliesQuiet (fst (step E e s))"
proof (cases e)
  case (CanvasChange now a)
  then show ?thesis using assms(1) by (simp add: change_quiet)
next
  case (ExternalUpdate now target sc)
  then show ?thesis using assms
    by (auto simp add: savedImpliesQuiet_def hook_defs Let_def
        split: option.splits save_status.splits)
qed (use assms(1) in \<open>auto simp add: savedImpliesQuiet_def hook_defs Let_def
        split: option.splits prod.splits save_status.splits\<close>)

lemma run_quiet: "savedImpliesQuiet s \<Longrightarrow> calm E s es \<Longrightarrow> savedImpliesQuiet (run E s es)"
  by (induction es arbitrary: s) (simp_all add: step_quiet)

lemma run_isSaving:
  "list_all (\<lambda>e. \<not> isCallback e) es \<Longrightarrow> isSavingRef (run E s es) = isSavingRef s"
  by (induction es arbitrary: s) (simp_all add: step_isSaving)

lemma run_flag_mono:
  "list_all (\<lambda>e. \<not> isCallback e) es \<Longrightarrow> hasLocalEditsSinceSavingRef s
   \<Longrightarrow> hasLocalEditsSinceSavingRef (run E s es)"
proof (induction es arbitrary: s)
  case Nil
  then show ?case by simp
next
  case (Cons e es)
  then have "e \<noteq> OnSavingIdle" "e \<noteq> OnSavingInterval" by auto
  with Cons show ?case by (simp add: step_flag_mono)
qed

lemma resolve_dirty: "hasLocalEditsSinceSavingRef s \<Longrightarrow> saveState (resolveSaved now s) = Dirty"
  by (simp add: resolveSaved_def Let_def)

lemma onSavedIdle_dirty:
  "hasLocalEditsSinceSavingRef s \<Longrightarrow> saveState (onSavedIdle c now sc s) = Dirty"
  by (simp add: onSavedIdle_def resolveSaved_def Let_def)

subsection \<open>The hook with its controllers\<close>

lemma ctlApply_hook_fields:
  "initialSceneAppliedRef (hook (ctlApply x c)) = initialSceneAppliedRef (hook x)"
  "waId (hook (ctlApply x c)) = waId (hook x)"
  "enabled (hook (ctlApply x c)) = enabled (hook x)"
  "autoLoadOnMount (hook (ctlApply x c)) = autoLoadOnMount (hook x)"
  by (cases c; simp add: issuePersist_def onSaving_def)+

lemma foldl_ctlApply_hook_fields:
  "initialSceneAppliedRef (hook (foldl ctlApply x cs)) = initialSceneAppliedRef (hook x)"
  "waId (hook (foldl ctlApply x cs)) = waId (hook x)"
  "enabled (hook (foldl ctlApply x cs)) = enabled (hook x)"
  "autoLoadOnMount (hook (foldl ctlApply x cs)) = autoLoadOnMount (hook x)"
  by (induction cs arbitrary: x; simp add: ctlApply_hook_fields)+

lemma ctlApply_benign:
  assumes "benign c" "idlePending x = None" "\<not> heartbeatRunning x"
    and "supersededTimers x = []" "supersededHeartbeats x = []"
  shows "idlePending (ctlApply x c) = None \<and> \<not> heartbeatRunning (ctlApply x c)
         \<and> supersededTimers (ctlApply x c) = [] \<and> supersededHeartbeats (ctlApply x c) = []
         \<and> persists (ctlApply x c) = persists x"
  using assms by (cases c) simp_all

lemma foldl_ctlApply_benign:
  assumes "list_all benign cs" "idlePending x = None" "\<not> heartbeatRunning x"
    and "supersededTimers x = []" "supersededHeartbeats x = []"
  shows "idlePending (foldl ctlApply x cs) = None \<and> \<not> heartbeatRunning (foldl ctlApply x cs)
         \<and> supersededTimers (foldl ctlApply x cs) = []
         \<and> supersededHeartbeats (foldl ctlApply x cs) = []
         \<and> persists (foldl ctlApply x cs) = persists x"
  using assms
proof (induction cs arbitrary: x)
  case Nil
  then show ?case by simp
next
  case (Cons c cs)
  from Cons.prems
  have "idlePending (ctlApply x c) = None \<and> \<not> heartbeatRunning (ctlApply x c)
        \<and> supersededTimers (ctlApply x c) = [] \<and> supersededHeartbeats (ctlApply x c) = []
        \<and> persists (ctlApply x c) = persists x"
    using ctlApply_benign[of c x] by simp
  with Cons show ?case by simp
qed

lemma heartbeat_unapplied: "\<not> initialSceneAppliedRef s \<Longrightarrow> heartbeatEffect s = []"
  by (simp add: heartbeatEffect_def)

lemma flushNow_unapplied: "\<not> initialSceneAppliedRef s \<Longrightarrow> flushNow api s = []"
  by (simp add: flushNow_def)

lemma switch_calls:
  "\<not> initialSceneAppliedRef (fst (switchWaId d w s)) \<Longrightarrow> list_all benign (snd (switchWaId d w s))"
  by (simp add: switchWaId_def controllersEffect_def controllersCleanup_def Let_def
      heartbeat_unapplied split: if_splits)

lemma setUnlocked_calls:
  "\<not> initialSceneAppliedRef (fst (setUnlocked b s)) \<Longrightarrow> list_all benign (snd (setUnlocked b s))"
  by (simp add: setUnlocked_def Let_def heartbeat_unapplied split: if_splits)

lemma externalUpdate_calls: "list_all benign (snd (onExternalUpdate c now target sc s))"
  by (simp add: onExternalUpdate_def)

lemma step_calls_unapplied:
  assumes "fromOutside (Env e)" "\<not> initialSceneAppliedRef (fst (step E e s))"
  shows "list_all benign (snd (step E e s))"
proof (cases e)
  case (CanvasChange now a)
  with assms(2) have "\<not> initialSceneAppliedRef s" by (simp add: change_applied)
  then show ?thesis using CanvasChange by (simp add: change_unapplied)
next
  case (ExternalUpdate now target sc)
  then show ?thesis by (simp add: externalUpdate_calls)
next
  case (SwitchWaId w)
  then show ?thesis using assms(2) by (simp add: switch_calls)
next
  case (SetUnlocked b)
  then show ?thesis using assms(2) by (simp add: setUnlocked_calls)
next
  case (FlushNow api)
  then show ?thesis using assms(2) by (simp add: flushNow_unapplied)
next
  case PageHide
  then show ?thesis using assms(1) by simp
qed simp_all

lemma sys_step_unapplied:
  assumes "idlePending x = None" "\<not> heartbeatRunning x"
    and "supersededTimers x = []" "supersededHeartbeats x = []"
    and "fromOutside e" "\<not> initialSceneAppliedRef (hook (sysStep E e x))"
  shows "idlePending (sysStep E e x) = None \<and> \<not> heartbeatRunning (sysStep E e x)
         \<and> supersededTimers (sysStep E e x) = [] \<and> supersededHeartbeats (sysStep E e x) = []
         \<and> persists (sysStep E e x) = persists x"
proof (cases e)
  case (Env ev)
  obtain s' calls where st: "step E ev (hook x) = (s', calls)"
    by (cases "step E ev (hook x)")
  have sys: "sysStep E e x = foldl ctlApply (x\<lparr> hook := s' \<rparr>) calls"
    using Env st by simp
  have "\<not> initialSceneAppliedRef s'"
    using assms(6) by (simp add: sys foldl_ctlApply_hook_fields)
  then have "list_all benign calls"
    using step_calls_unapplied[of ev E "hook x"] assms(5) Env st by simp
  then show ?thesis
    using foldl_ctlApply_benign[of calls "x\<lparr> hook := s' \<rparr>"] assms(1-4) by (simp add: sys)
next
  case IdleTimerFires
  then show ?thesis using assms by (simp add: idleTimerFires_def)
next
  case HeartbeatTicks
  then show ?thesis using assms by (simp add: heartbeatTicks_def)
next
  case SupersededTimerFires
  then show ?thesis using assms by (simp add: supersededTimerFires_def)
next
  case SupersededHeartbeatTicks
  then show ?thesis using assms by (simp add: supersededHeartbeatTicks_def)
qed

lemma sys_run_unapplied:
  "idlePending x = None \<Longrightarrow> \<not> heartbeatRunning x \<Longrightarrow> supersededTimers x = []
   \<Longrightarrow> supersededHeartbeats x = [] \<Longrightarrow> beforeSceneApplied E x es
   \<Longrightarrow> persists (sysRun E x es) = persists x"
proof (induction es arbitrary: x)
  case Nil
  then show ?case by simp
next
  case (Cons e es)
  then have "idlePending (sysStep E e x) = None \<and> \<not> heartbeatRunning (sysStep E e x)
             \<and> supersededTimers (sysStep E e x) = [] \<and> supersededHeartbeats (sysStep E e x) = []
             \<and> persists (sysStep E e x) = persists x"
    using sys_step_unapplied[of x e E] by simp
  with Cons show ?case by simp
qed

subsection \<open>Every reachable system is tidy\<close>

lemma change_props:
  "waId (fst (handleCanvasChangeInternal al now a s)) = waId s"
  "enabled (fst (handleCanvasChangeInternal al now a s)) = enabled s"
  "autoLoadOnMount (fst (handleCanvasChangeInternal al now a s)) = autoLoadOnMount s"
  by (simp_all add: handleCanvasChangeInternal_def Let_def)

lemma step_options:
  "enabled (fst (step E e s)) = enabled s"
  "autoLoadOnMount (fst (step E e s)) = autoLoadOnMount s"
  by (cases e; simp add: change_props hook_defs Let_def split: option.splits prod.splits)+

lemma step_waId: "\<not> isSwitch e \<Longrightarrow> waId (fst (step E e s)) = waId s"
  by (cases e; simp add: change_props hook_defs Let_def split: option.splits prod.splits)

lemma change_calls_not_new: "list_all (\<lambda>c. \<not> isNew c) (snd (handleCanvasChangeInternal al now a s))"
  by (simp add: handleCanvasChangeInternal_def Let_def)

lemma step_calls_not_new: "\<not> isSwitch e \<Longrightarrow> list_all (\<lambda>c. \<not> isNew c) (snd (step E e s))"
  by (cases e; simp add: change_calls_not_new onExternalUpdate_def setUnlocked_def heartbeatEffect_def
      flushNow_def flushOnHide_def Let_def split: option.splits prod.splits)

lemma step_calls_blank:
  "\<not> isSwitch e \<Longrightarrow> waId s = [] \<Longrightarrow> list_all benign (snd (step E e s))"
  by (cases e; simp add: gated_no_effect gated_def onExternalUpdate_def setUnlocked_def
      heartbeatEffect_def flushNow_def flushOnHide_def Let_def)

lemma ctlApply_not_new:
  "\<not> isNew c \<Longrightarrow> supersededTimers (ctlApply x c) = supersededTimers x
     \<and> supersededHeartbeats (ctlApply x c) = supersededHeartbeats x"
  by (cases c) (simp_all add: issuePersist_def)

lemma foldl_ctlApply_not_new:
  "list_all (\<lambda>c. \<not> isNew c) cs \<Longrightarrow> supersededTimers (foldl ctlApply x cs) = supersededTimers x
     \<and> supersededHeartbeats (foldl ctlApply x cs) = supersededHeartbeats x"
  by (induction cs arbitrary: x) (simp_all add: ctlApply_not_new)

lemma tidy_switch:
  assumes "tidy x"
  shows "tidy (sysStep E (Env (SwitchWaId w)) x)"
  using assms
  by (auto simp: tidy_def switchWaId_def loadEffect_def controllersEffect_def controllersCleanup_def
      heartbeatEffect_def Let_def split: if_splits)

lemma tidy_env:
  assumes "tidy x" "\<not> isSwitch e"
  shows "tidy (sysStep E (Env e) x)"
proof -
  obtain s' calls where st: "step E e (hook x) = (s', calls)"
    by (cases "step E e (hook x)")
  define y where "y = foldl ctlApply (x\<lparr> hook := s' \<rparr>) calls"
  have sys: "sysStep E (Env e) x = y"
    using st by (simp add: y_def)
  have opts: "enabled (hook y)" "autoLoadOnMount (hook y)"
    using step_options[of E e "hook x"] st assms(1)
    by (simp_all add: y_def tidy_def foldl_ctlApply_hook_fields)
  have w: "waId (hook y) = waId (hook x)"
    using step_waId[OF assms(2), of E "hook x"] st
    by (simp add: y_def foldl_ctlApply_hook_fields)
  have nn: "list_all (\<lambda>c. \<not> isNew c) calls"
    using step_calls_not_new[OF assms(2), of E "hook x"] st by simp
  have sup: "supersededTimers y = []" "supersededHeartbeats y = []"
    using foldl_ctlApply_not_new[OF nn, of "x\<lparr> hook := s' \<rparr>"] assms(1)
    by (simp_all add: y_def tidy_def)
  have blank: "waId (hook x) \<noteq> [] \<or> idlePending y = None \<and> \<not> heartbeatRunning y"
  proof (cases "waId (hook x) = []")
    case True
    then have "list_all benign calls"
      using step_calls_blank[OF assms(2), of "hook x" E] st by simp
    moreover have "idlePending x = None" "\<not> heartbeatRunning x"
      using True assms(1) by (auto simp: tidy_def)
    ultimately show ?thesis
      using foldl_ctlApply_benign[of calls "x\<lparr> hook := s' \<rparr>"] assms(1)
      by (simp add: y_def tidy_def)
  qed simp
  have "tidy y"
    unfolding tidy_def using sup blank opts w by simp
  then show ?thesis
    unfolding sys .
qed

lemma tidy_step: "tidy x \<Longrightarrow> tidy (sysStep E e x)"
proof (cases e)
  case (Env ev)
  assume "tidy x"
  then show ?thesis
    using Env tidy_switch[of x E] tidy_env[of x ev E] by (cases ev) simp_all
qed (auto simp: tidy_def idleTimerFires_def heartbeatTicks_def supersededTimerFires_def
      supersededHeartbeatTicks_def issuePersist_def onSaving_def split: option.splits)

lemma tidy_run: "tidy x \<Longrightarrow> tidy (sysRun E x es)"
  by (induction es arbitrary: x) (simp_all add: tidy_step)

lemma tidy_initial: "tidy (initialSystem unlocked)"
  by (simp add: tidy_def initialSystem_def initialState_def)

lemma switch_hook:
  assumes "B \<noteq> []" "B \<noteq> waId s" "enabled s" "autoLoadOnMount s"
  shows "waId (fst (switchWaId d B s)) = B"
    and "\<not> initialSceneAppliedRef (fst (switchWaId d B s))"
    and "lastSavedViewerSigRef (fst (switchWaId d B s)) = None"
    and "lastSavedEditorSigRef (fst (switchWaId d B s)) = None"
    and "\<not> isDirtyRef (fst (switchWaId d B s))"
  using assms by (auto simp add: switchWaId_def loadEffect_def controllersEffect_def Let_def)

lemma switch_calls_new:
  assumes "B \<noteq> []" "B \<noteq> waId s" "enabled s" "autoLoadOnMount s"
  shows "snd (switchWaId d B s) = controllersCleanup s @ [IntervalStop, NewControllers B]"
  using assms
  by (auto simp add: switchWaId_def loadEffect_def controllersEffect_def Let_def
      heartbeatEffect_def)

lemma switch_system:
  assumes "B \<noteq> []" "B \<noteq> waId (hook x)" "tidy x"
  shows "idlePending (sysStep E (Env (SwitchWaId B)) x) = None"
    and "\<not> heartbeatRunning (sysStep E (Env (SwitchWaId B)) x)"
    and "supersededTimers (sysStep E (Env (SwitchWaId B)) x) = []"
    and "supersededHeartbeats (sysStep E (Env (SwitchWaId B)) x) = []"
    and "persists (sysStep E (Env (SwitchWaId B)) x) = persists x"
    and "hook (sysStep E (Env (SwitchWaId B)) x) = fst (switchWaId (dflt E) B (hook x))"
proof -
  have opts: "enabled (hook x)" "autoLoadOnMount (hook x)"
    using assms(3) by (simp_all add: tidy_def)
  obtain s' calls where st: "switchWaId (dflt E) B (hook x) = (s', calls)"
    by (cases "switchWaId (dflt E) B (hook x)")
  have c: "calls = controllersCleanup (hook x) @ [IntervalStop, NewControllers B]"
    using switch_calls_new[OF assms(1,2) opts, of "dflt E"] st by simp
  have sys: "sysStep E (Env (SwitchWaId B)) x = foldl ctlApply (x\<lparr> hook := s' \<rparr>) calls"
    using st by simp
  show "idlePending (sysStep E (Env (SwitchWaId B)) x) = None"
    and "\<not> heartbeatRunning (sysStep E (Env (SwitchWaId B)) x)"
    and "supersededTimers (sysStep E (Env (SwitchWaId B)) x) = []"
    and "supersededHeartbeats (sysStep E (Env (SwitchWaId B)) x) = []"
    and "persists (sysStep E (Env (SwitchWaId B)) x) = persists x"
    and "hook (sysStep E (Env (SwitchWaId B)) x) = fst (switchWaId (dflt E) B (hook x))"
    unfolding sys c using st assms(3) by (auto simp add: controllersCleanup_def tidy_def)
qed

section \<open>The session controller: status, updates, switches, intake\<close>

subsection \<open>C1: status and the edits-during-save flag\<close>

text \<open>
  C1, as stated, fails: the document of customer 201 is open, an element is added, the idle
  controller starts saving, a second element is added while the save is in flight (which
  sets \<^verbatim>\<open>hasLocalEditsSinceSavingRef\<close>), and an external update for 201 arrives before the
  save resolves. The handler sets the status to saved and leaves the flag set.
\<close>

theorem saved_while_edits_flag_set_counterexample:
  "saveState (run exampleEnv (initialState [] False)
       (editAndStartSaving @ [CanvasChange 6100 (edit 12), ExternalUpdate 6200 ''201'' loadedScene]))
     = Saved 6200
   \<and> hasLocalEditsSinceSavingRef (run exampleEnv (initialState [] False)
       (editAndStartSaving @ [CanvasChange 6100 (edit 12), ExternalUpdate 6200 ''201'' loadedScene]))"
  by (simp add: example_defs hook_defs change_defs heartbeatEffect_def Let_def)

lemma race_resolves_dirty:
  assumes start: "starting = OnSavingIdle \<or> starting = OnSavingInterval"
    and fin: "resolving = OnSavedIdle t sc \<or> resolving = OnSavedInterval t"
    and before: "list_all (\<lambda>e. \<not> isCallback e) before"
    and after: "list_all (\<lambda>e. \<not> isCallback e) after"
    and taken: "\<not> gated now (run E s (starting # before))"
    and changed: "contentChanged (arrLen E) (run E s (starting # before)) a
                  \<or> editorCameraChanged (run E s (starting # before)) a"
  shows "saveState (run E s (starting # before @ CanvasChange now a # after @ [resolving])) = Dirty"
proof -
  let ?s1 = "run E s (starting # before)"
  let ?s2 = "fst (step E (CanvasChange now a) ?s1)"
  let ?s3 = "run E ?s2 after"
  have "isSavingRef (fst (step E starting s))"
    using start by (auto simp: onSaving_def)
  then have "isSavingRef ?s1"
    using before by (simp add: run_isSaving)
  then have "hasLocalEditsSinceSavingRef ?s2"
    using taken changed by (simp add: change_sets_flag)
  then have flag: "hasLocalEditsSinceSavingRef ?s3"
    using after by (simp add: run_flag_mono)
  have "run E s (starting # before @ CanvasChange now a # after @ [resolving])
        = fst (step E resolving ?s3)"
    by (simp add: run_append)
  moreover have "saveState (fst (step E resolving ?s3)) = Dirty"
    using fin flag by (auto simp: onSavedIdle_dirty onSavedInterval_def resolve_dirty)
  ultimately show ?thesis by simp
qed

text \<open>
  C1 (amended). In every run of the hook in which the external updates that are applied
  arrive while neither \<^verbatim>\<open>isSavingRef\<close> nor \<^verbatim>\<open>hasLocalEditsSinceSavingRef\<close> is set,
  the status never reads saved while the edits-during-save flag is set. And from every
  state: when a persist
  starts (\<^verbatim>\<open>onSaving\<close> of either controller), a change with changed content or changed
  editor camera is taken in before the persist resolves, and no other controller callback
  runs in between, then the status after the successful resolution (\<^verbatim>\<open>onSaved\<close> of either
  controller) is dirty, not saved.
\<close>

theorem save_resolution_respects_edits:
  "(calm E (initialState w unlocked) es \<longrightarrow>
      (\<forall>t. saveState (run E (initialState w unlocked) es) = Saved t \<longrightarrow>
           \<not> hasLocalEditsSinceSavingRef (run E (initialState w unlocked) es)))
   \<and> ((starting = OnSavingIdle \<or> starting = OnSavingInterval)
      \<and> (resolving = OnSavedIdle t' sc \<or> resolving = OnSavedInterval t')
      \<and> list_all (\<lambda>e. \<not> isCallback e) before \<and> list_all (\<lambda>e. \<not> isCallback e) after
      \<and> \<not> gated now (run E s' (starting # before))
      \<and> (contentChanged (arrLen E) (run E s' (starting # before)) a
         \<or> editorCameraChanged (run E s' (starting # before)) a)
      \<longrightarrow> saveState (run E s' (starting # before @ CanvasChange now a # after @ [resolving])) = Dirty)"
proof (intro conjI impI allI)
  fix t
  assume "calm E (initialState w unlocked) es"
    and saved: "saveState (run E (initialState w unlocked) es) = Saved t"
  moreover have "savedImpliesQuiet (initialState w unlocked)"
    by (simp add: savedImpliesQuiet_def initialState_def)
  ultimately have "savedImpliesQuiet (run E (initialState w unlocked) es)"
    by (simp add: run_quiet)
  with saved show "\<not> hasLocalEditsSinceSavingRef (run E (initialState w unlocked) es)"
    by (simp add: savedImpliesQuiet_def)
next
  assume "(starting = OnSavingIdle \<or> starting = OnSavingInterval)
      \<and> (resolving = OnSavedIdle t' sc \<or> resolving = OnSavedInterval t')
      \<and> list_all (\<lambda>e. \<not> isCallback e) before \<and> list_all (\<lambda>e. \<not> isCallback e) after
      \<and> \<not> gated now (run E s' (starting # before))
      \<and> (contentChanged (arrLen E) (run E s' (starting # before)) a
         \<or> editorCameraChanged (run E s' (starting # before)) a)"
  then show "saveState (run E s' (starting # before @ CanvasChange now a # after @ [resolving])) = Dirty"
    using race_resolves_dirty[of starting resolving t' sc before after now E s' a] by blast
qed

text \<open>
  A run of the first kind that ends saved with the flag clear, and a race that ends dirty.
\<close>

theorem save_resolution_respects_edits_witness:
  "calm exampleEnv (initialState [] False) (editAndStartSaving @ [OnSavedIdle 6300 savedScene])
   \<and> saveState (run exampleEnv (initialState [] False)
        (editAndStartSaving @ [OnSavedIdle 6300 savedScene])) = Saved 6300
   \<and> \<not> hasLocalEditsSinceSavingRef (run exampleEnv (initialState [] False)
        (editAndStartSaving @ [OnSavedIdle 6300 savedScene]))
   \<and> \<not> gated 6100 (run exampleEnv (run exampleEnv (initialState [] False) openDocument)
        (OnSavingIdle # [SetGlobalIgnore 5000]))
   \<and> contentChanged (arrLen exampleEnv)
        (run exampleEnv (run exampleEnv (initialState [] False) openDocument)
           (OnSavingIdle # [SetGlobalIgnore 5000])) (edit 12)
   \<and> saveState (run exampleEnv (run exampleEnv (initialState [] False) openDocument)
        (OnSavingIdle # [SetGlobalIgnore 5000] @ CanvasChange 6100 (edit 12)
           # [SceneApplied 6150 ''305''] @ [OnSavedIdle 6300 savedScene])) = Dirty"
  using save_resolution_respects_edits[of exampleEnv "[]" False
      "editAndStartSaving @ [OnSavedIdle 6300 savedScene]" OnSavingIdle
      "OnSavedIdle 6300 savedScene" 6300 savedScene "[SetGlobalIgnore 5000]"
      "[SceneApplied 6150 ''305'']" 6100
      "run exampleEnv (initialState [] False) openDocument" "edit 12"]
  by (simp add: example_defs hook_defs change_defs heartbeatEffect_def savedImpliesQuiet_def Let_def)

subsection \<open>C2: external updates\<close>

text \<open>
  C2, as stated, fails for the two flags of the hook: in the session of C1, with a save in
  flight and an edit recorded during it, the external update for the bound id leaves
  \<^verbatim>\<open>isSavingRef\<close> and \<^verbatim>\<open>hasLocalEditsSinceSavingRef\<close> set.
\<close>

theorem external_update_keeps_saving_refs_counterexample:
  "waId (run exampleEnv (initialState [] False) (editAndStartSaving @ [CanvasChange 6100 (edit 12)]))
     = ''201''
   \<and> isSavingRef (fst (onExternalUpdate (cds exampleEnv) 6200 ''201'' loadedScene
       (run exampleEnv (initialState [] False) (editAndStartSaving @ [CanvasChange 6100 (edit 12)]))))
   \<and> hasLocalEditsSinceSavingRef (fst (onExternalUpdate (cds exampleEnv) 6200 ''201'' loadedScene
       (run exampleEnv (initialState [] False) (editAndStartSaving @ [CanvasChange 6100 (edit 12)]))))"
  by (simp add: example_defs hook_defs change_defs heartbeatEffect_def Let_def)

lemma external_update_ignored:
  "target \<noteq> waId s \<or> waId s = [] \<Longrightarrow> onExternalUpdate c now target sc s = (s, [])"
  by (auto simp: onExternalUpdate_def)

lemma external_update_applied:
  assumes "target = waId s" "waId s \<noteq> []"
  shows "lastSavedSigRef (fst (onExternalUpdate c now target sc s)) = Some (c (content sc))"
    and "lastSavedViewerSigRef (fst (onExternalUpdate c now target sc s))
         = (case viewerAppState sc of
              Some v \<Rightarrow> if hasKeys v then Some (computeViewerCameraSig v) else None
            | None \<Rightarrow> None)"
    and "lastSavedEditorSigRef (fst (onExternalUpdate c now target sc s))
         = (case editorAppState sc of
              Some e \<Rightarrow> if hasKeys e then Some (computeViewerCameraSig e) else None
            | None \<Rightarrow> None)"
    and "\<not> docIsSaving (fst (onExternalUpdate c now target sc s))"
    and "\<not> docHasLocalEditsDuringSave (fst (onExternalUpdate c now target sc s))"
    and "isSavingRef (fst (onExternalUpdate c now target sc s)) = isSavingRef s"
    and "hasLocalEditsSinceSavingRef (fst (onExternalUpdate c now target sc s))
         = hasLocalEditsSinceSavingRef s"
    and "saveState (fst (onExternalUpdate c now target sc s)) = Saved now"
    and "\<not> loading (fst (onExternalUpdate c now target sc s))"
    and "ignoreChangesUntilRef (fst (onExternalUpdate c now target sc s)) = now + 400"
    and "initialSceneAppliedRef (fst (onExternalUpdate c now target sc s))"
  using assms
  by (simp_all add: onExternalUpdate_def externalUpdateBody_def onSceneApplied_def Let_def
      split: option.splits)

text \<open>
  C2 (amended). An external update whose id differs from the bound id, or that arrives
  while no document is bound, changes nothing. An update for the bound id records the
  content signature of the received scene as the last-saved baseline; records each camera
  signature as baseline when the scene carries that camera with at least one key, and
  resets that baseline to null otherwise; clears the two global flags
  \<^verbatim>\<open>__docIsSaving\<close> and \<^verbatim>\<open>__docHasLocalEditsDuringSave\<close> and leaves
  \<^verbatim>\<open>isSavingRef\<close> and \<^verbatim>\<open>hasLocalEditsSinceSavingRef\<close> as they were; sets the status to
  saved with the current time; ends the loading state; starts a suppression window (of
  400 ms, set by the scene-applied listener that the handler triggers last); and sets
  \<^verbatim>\<open>initialSceneAppliedRef\<close>.
\<close>

theorem external_update_reconciles:
  "(target \<noteq> waId s \<or> waId s = [] \<longrightarrow> onExternalUpdate c now target sc s = (s, []))
   \<and> (target = waId s \<and> waId s \<noteq> [] \<longrightarrow>
        lastSavedSigRef (fst (onExternalUpdate c now target sc s)) = Some (c (content sc))
      \<and> lastSavedViewerSigRef (fst (onExternalUpdate c now target sc s))
         = (case viewerAppState sc of
              Some v \<Rightarrow> if hasKeys v then Some (computeViewerCameraSig v) else None
            | None \<Rightarrow> None)
      \<and> lastSavedEditorSigRef (fst (onExternalUpdate c now target sc s))
         = (case editorAppState sc of
              Some e \<Rightarrow> if hasKeys e then Some (computeViewerCameraSig e) else None
            | None \<Rightarrow> None)
      \<and> \<not> docIsSaving (fst (onExternalUpdate c now target sc s))
      \<and> \<not> docHasLocalEditsDuringSave (fst (onExternalUpdate c now target sc s))
      \<and> isSavingRef (fst (onExternalUpdate c now target sc s)) = isSavingRef s
      \<and> hasLocalEditsSinceSavingRef (fst (onExternalUpdate c now target sc s))
         = hasLocalEditsSinceSavingRef s
      \<and> saveState (fst (onExternalUpdate c now target sc s)) = Saved now
      \<and> \<not> loading (fst (onExternalUpdate c now target sc s))
      \<and> ignoreChangesUntilRef (fst (onExternalUpdate c now target sc s)) = now + 400
      \<and> gated now (fst (onExternalUpdate c now target sc s))
      \<and> initialSceneAppliedRef (fst (onExternalUpdate c now target sc s)))"
proof (intro conjI impI)
  assume "target \<noteq> waId s \<or> waId s = []"
  then show "onExternalUpdate c now target sc s = (s, [])" by (rule external_update_ignored)
next
  assume a: "target = waId s \<and> waId s \<noteq> []"
  then have "ignoreChangesUntilRef (fst (onExternalUpdate c now target sc s)) = now + 400"
    by (simp add: external_update_applied)
  then show "gated now (fst (onExternalUpdate c now target sc s))"
    by (simp add: gated_def)
qed (simp_all add: external_update_applied)

text \<open>
  An update for another customer is ignored; an update for 201 with a viewer camera and an
  empty editor camera, arriving while a save is in flight.
\<close>

theorem external_update_reconciles_witness:
  "''305'' \<noteq> waId (run exampleEnv (initialState [] False) editAndStartSaving)
   \<and> onExternalUpdate (cds exampleEnv) 6200 ''305'' cameraScene
        (run exampleEnv (initialState [] False) editAndStartSaving)
      = (run exampleEnv (initialState [] False) editAndStartSaving, [])
   \<and> ''201'' = waId (run exampleEnv (initialState [] False) editAndStartSaving)
   \<and> lastSavedViewerSigRef (fst (onExternalUpdate (cds exampleEnv) 6200 ''201'' cameraScene
        (run exampleEnv (initialState [] False) editAndStartSaving)))
      = Some (CamSig (Some (3 / 2)) (Some 101) (Some (- 7)))
   \<and> lastSavedEditorSigRef (fst (onExternalUpdate (cds exampleEnv) 6200 ''201'' cameraScene
        (run exampleEnv (initialState [] False) editAndStartSaving))) = None
   \<and> saveState (fst (onExternalUpdate (cds exampleEnv) 6200 ''201'' cameraScene
        (run exampleEnv (initialState [] False) editAndStartSaving))) = Saved 6200
   \<and> isSavingRef (fst (onExternalUpdate (cds exampleEnv) 6200 ''201'' cameraScene
        (run exampleEnv (initialState [] False) editAndStartSaving)))"
proof -
  have w: "waId (run exampleEnv (initialState [] False) editAndStartSaving) = ''201''"
    and sv: "isSavingRef (run exampleEnv (initialState [] False) editAndStartSaving)"
    by (simp_all add: example_defs hook_defs change_defs heartbeatEffect_def Let_def)
  have cam: "computeViewerCameraSig (cameraAt (3 / 2) (201 / 2) (- 7))
     = CamSig (Some (3 / 2)) (Some 101) (Some (- 7))"
    by code_simp
  show ?thesis
    using external_update_reconciles[of "''305''"
        "run exampleEnv (initialState [] False) editAndStartSaving" "cds exampleEnv" 6200 cameraScene]
      external_update_reconciles[of "''201''"
        "run exampleEnv (initialState [] False) editAndStartSaving" "cds exampleEnv" 6200 cameraScene]
    by (simp add: w sv cam[unfolded cameraAt_def] cameraScene_def cameraAt_def hasKeys_def)
qed

subsection \<open>C3: switching the bound document\<close>

text \<open>
  C3, as stated, fails when the new id is the empty one (the user clears the document):
  the load effect and the controllers effect return at once, so
  \<^verbatim>\<open>initialSceneAppliedRef\<close> and \<^verbatim>\<open>isDirtyRef\<close> keep the values they had for 201.
\<close>

theorem switch_to_blank_keeps_gate_counterexample:
  "waId (run exampleEnv (initialState [] False) (openDocument @ [CanvasChange 3000 (edit 11)])) = ''201''
   \<and> initialSceneAppliedRef (fst (switchWaId (dflt exampleEnv) []
        (run exampleEnv (initialState [] False) (openDocument @ [CanvasChange 3000 (edit 11)]))))
   \<and> isDirtyRef (fst (switchWaId (dflt exampleEnv) []
        (run exampleEnv (initialState [] False) (openDocument @ [CanvasChange 3000 (edit 11)]))))"
  by (simp add: example_defs hook_defs change_defs heartbeatEffect_def Let_def)

text \<open>
  C3 (amended). In every run of the page, a switch from the bound id to a different,
  non-empty id B leaves no idle timer pending, neither of the controller being replaced
  nor of an earlier one, so that a timer firing afterwards issues nothing; it resets
  \<^verbatim>\<open>initialSceneAppliedRef\<close> to false together with both camera signature baselines and
  the dirty flag; and as long as the initial scene of B has not been applied, no persist
  is issued by an idle timer, a heartbeat or the exported \<^verbatim>\<open>flushNow\<close>.
\<close>

theorem switch_isolates_subjects:
  assumes "x = sysRun E (initialSystem unlocked) history"
    and "y = sysStep E (Env (SwitchWaId B)) x"
    and "B \<noteq> []" and "B \<noteq> waId (hook x)"
  shows "idlePending y = None \<and> supersededTimers y = []
       \<and> sysStep E IdleTimerFires y = y \<and> sysStep E SupersededTimerFires y = y
       \<and> waId (hook y) = B
       \<and> \<not> initialSceneAppliedRef (hook y)
       \<and> lastSavedViewerSigRef (hook y) = None
       \<and> lastSavedEditorSigRef (hook y) = None
       \<and> \<not> isDirtyRef (hook y)
       \<and> (\<forall>es. beforeSceneApplied E y es \<longrightarrow> persists (sysRun E y es) = persists x)"
proof -
  have tx: "tidy x"
    unfolding assms(1) by (rule tidy_run[OF tidy_initial])
  then have opts: "enabled (hook x)" "autoLoadOnMount (hook x)"
    by (simp_all add: tidy_def)
  note sw = switch_system[OF assms(3,4) tx, of E, folded assms(2)]
  note hk = switch_hook[OF assms(3,4) opts, of "dflt E"]
  have fire: "sysStep E IdleTimerFires y = y" "sysStep E SupersededTimerFires y = y"
    using sw(1,3) by (simp_all add: idleTimerFires_def supersededTimerFires_def)
  have run: "\<forall>es. beforeSceneApplied E y es \<longrightarrow> persists (sysRun E y es) = persists x"
    using sys_run_unapplied[of y E] sw(1-5) by simp
  have "waId (hook y) = B" "\<not> initialSceneAppliedRef (hook y)"
    "lastSavedViewerSigRef (hook y) = None" "lastSavedEditorSigRef (hook y) = None"
    "\<not> isDirtyRef (hook y)"
    unfolding sw(6) by (rule hk)+
  with sw(1,3) fire run show ?thesis by blast
qed

text \<open>
  Document 201 has a save pending on its idle timer when the user selects customer 305.
  Timers fire, the heartbeat ticks, the canvas reports changes and \<^verbatim>\<open>flushNow\<close> is
  called before the document of 305 arrives: nothing is persisted.
\<close>

lemmas sys_defs = sessionHistory_def sessionWithPendingSave_def afterSwitch_def initialSystem_def
  idleTimerFires_def heartbeatTicks_def supersededTimerFires_def supersededHeartbeatTicks_def
  issuePersist_def flushNow_def flushOnHide_def latestPayload_def heartbeatEffect_def

theorem switch_isolates_subjects_witness:
  "''305'' \<noteq> [] \<and> ''305'' \<noteq> waId (hook sessionWithPendingSave)
   \<and> idlePending sessionWithPendingSave \<noteq> None
   \<and> idlePending (sysStep exampleEnv (Env (SwitchWaId ''305'')) sessionWithPendingSave) = None
   \<and> \<not> initialSceneAppliedRef (hook (sysStep exampleEnv (Env (SwitchWaId ''305'')) sessionWithPendingSave))
   \<and> beforeSceneApplied exampleEnv
        (sysStep exampleEnv (Env (SwitchWaId ''305'')) sessionWithPendingSave) afterSwitch
   \<and> persists (sysRun exampleEnv
        (sysStep exampleEnv (Env (SwitchWaId ''305'')) sessionWithPendingSave) afterSwitch) = []"
proof -
  have p: "idlePending sessionWithPendingSave \<noteq> None"
    and w: "waId (hook sessionWithPendingSave) = ''201''"
    and l: "persists sessionWithPendingSave = []"
    by (simp_all add: sys_defs example_defs hook_defs change_defs Let_def)
  have b: "beforeSceneApplied exampleEnv
        (sysStep exampleEnv (Env (SwitchWaId ''305'')) sessionWithPendingSave) afterSwitch"
    by (simp add: sys_defs example_defs hook_defs change_defs Let_def)
  have n: "''305'' \<noteq> []" "''305'' \<noteq> waId (hook sessionWithPendingSave)"
    by (simp_all add: w)
  show ?thesis
    using switch_isolates_subjects[OF sessionWithPendingSave_def refl n] p w l b by simp
qed

text \<open>
  The flush on tab hide is not covered by the statement above: it checks the lock only,
  and after the same switch it persists the latest elements of 201 through the controller
  of 305.
\<close>

lemma tab_hide_flush_after_switch:
  "persists (sysStep exampleEnv (Env PageHide)
      (sysStep exampleEnv (Env (SwitchWaId ''305'')) sessionWithPendingSave))
   = [(''305'', Some \<lparr> p_elements = Some 11, p_appState = Some [], p_files = Some 50,
                       p_viewerAppState = [], p_editorAppState = [] \<rparr>)]"
  by (simp add: sys_defs example_defs hook_defs change_defs Let_def)

subsection \<open>C4: the gates of the change intake\<close>

text \<open>
  C4. A change notification has no effect at all (the state of the hook is unchanged and
  nothing is scheduled) when no document is bound, or the document is locked, or the
  initial scene has not been applied, or the time lies before the end of the hook's own
  suppression window or of the global one. Times are non-negative.
\<close>

theorem change_ignored_when_gated:
  assumes "0 \<le> now"
    and "waId s = [] \<or> \<not> isUnlocked s \<or> \<not> initialSceneAppliedRef s
         \<or> now < ignoreChangesUntilRef s
         \<or> (\<exists>u. docIgnoreChangesUntil s = Some u \<and> now < u)"
  shows "handleCanvasChangeInternal al now a s = (s, [])"
proof -
  have "gated now s"
    using assms by (auto simp: gated_def globalGuard_def)
  then show ?thesis by (rule gated_no_effect)
qed

lemma openSession_fields:
  "waId openSession = ''201''" "isUnlocked openSession" "enabled openSession"
  "initialSceneAppliedRef openSession" "ignoreChangesUntilRef openSession = 1400"
  "docIgnoreChangesUntil openSession = None" "\<not> isSavingRef openSession"
  "\<not> isDirtyRef openSession" "saveState openSession = Saved 1000"
  "latestElementsRef openSession = None" "latestFilesRef openSession = None"
  "lastSavedViewerSigRef openSession = None" "lastSavedEditorSigRef openSession = None"
  "autoLoadOnMount openSession"
  by (simp_all add: openSession_def example_defs hook_defs change_defs heartbeatEffect_def Let_def)

text \<open>
  One instance for each gate, and the same change taken in once the window has passed.
\<close>

theorem change_ignored_when_gated_witness:
  "handleCanvasChangeInternal (arrLen exampleEnv) 3000 (edit 11) (initialState [] True)
     = (initialState [] True, [])
   \<and> handleCanvasChangeInternal (arrLen exampleEnv) 3000 (edit 11) (openSession\<lparr> isUnlocked := False \<rparr>)
     = (openSession\<lparr> isUnlocked := False \<rparr>, [])
   \<and> handleCanvasChangeInternal (arrLen exampleEnv) 3000 (edit 11)
        (fst (switchWaId [] ''305'' openSession))
     = (fst (switchWaId [] ''305'' openSession), [])
   \<and> handleCanvasChangeInternal (arrLen exampleEnv) 1399 (edit 11) openSession = (openSession, [])
   \<and> handleCanvasChangeInternal (arrLen exampleEnv) 3000 (edit 11)
        (openSession\<lparr> docIgnoreChangesUntil := Some 3500 \<rparr>)
     = (openSession\<lparr> docIgnoreChangesUntil := Some 3500 \<rparr>, [])
   \<and> snd (handleCanvasChangeInternal (arrLen exampleEnv) 3000 (edit 11) openSession) \<noteq> []"
proof -
  have 1: "waId (initialState [] True) = []" by (simp add: initialState_def)
  have 2: "\<not> isUnlocked (openSession\<lparr> isUnlocked := False \<rparr>)" by simp
  have 3: "\<not> initialSceneAppliedRef (fst (switchWaId [] ''305'' openSession))"
    by (simp add: switchWaId_def loadEffect_def controllersEffect_def openSession_fields Let_def)
  have 4: "1399 < ignoreChangesUntilRef openSession" by (simp add: openSession_fields)
  have 5: "\<exists>u. docIgnoreChangesUntil (openSession\<lparr> docIgnoreChangesUntil := Some 3500 \<rparr>) = Some u
               \<and> 3000 < u" by simp
  have 6: "snd (handleCanvasChangeInternal (arrLen exampleEnv) 3000 (edit 11) openSession) \<noteq> []"
    by (simp add: change_defs openSession_fields edit_def Let_def)
  show ?thesis
    using change_ignored_when_gated[of 3000 "initialState [] True" "arrLen exampleEnv" "edit 11"]
      change_ignored_when_gated[of 3000 "openSession\<lparr> isUnlocked := False \<rparr>" "arrLen exampleEnv" "edit 11"]
      change_ignored_when_gated[of 3000 "fst (switchWaId [] ''305'' openSession)" "arrLen exampleEnv" "edit 11"]
      change_ignored_when_gated[of 1399 openSession "arrLen exampleEnv" "edit 11"]
      change_ignored_when_gated[of 3000 "openSession\<lparr> docIgnoreChangesUntil := Some 3500 \<rparr>"
        "arrLen exampleEnv" "edit 11"]
      1 2 3 4 5 6
    by simp
qed

subsection \<open>C5: the transition to dirty\<close>





text \<open>
  The tracker can be set while the status is not dirty: after a failed save the status is
  error and \<^verbatim>\<open>isDirtyRef\<close> is still set, and a further edit leaves the status at error.
\<close>

lemma stale_dirty_flag_after_error:
  "saveState (run exampleEnv (initialState [] False)
       (editAndStartSaving @ [OnErrorIdle (Some ''offline''), CanvasChange 9000 (edit 12)]))
   = Error (Some ''offline'')"
  by (simp add: example_defs hook_defs change_defs heartbeatEffect_def Let_def)

subsection \<open>C6: camera changes are measured against the saved signature\<close>












subsection \<open>C7: a failed save\<close>

text \<open>
  C7. The \<^verbatim>\<open>onError\<close> callback of either controller clears \<^verbatim>\<open>isSavingRef\<close> and the
  global in-flight flag and sets the status to error with the message it was given (none
  when none was given). The gates of the intake are as before, and the next change that
  is taken in with anything changed schedules the idle autosave again.
\<close>

theorem save_failure_clears_in_flight:
  "fst (step E (OnErrorIdle m) s) = onError m s
   \<and> fst (step E (OnErrorInterval m) s) = onError m s
   \<and> \<not> isSavingRef (onError m s) \<and> \<not> docIsSaving (onError m s)
   \<and> saveState (onError m s) = Error m
   \<and> gated now (onError m s) = gated now s
   \<and> (\<not> gated now (onError m s)
       \<and> (contentChanged al (onError m s) a \<or> viewerCameraChanged (onError m s) a
          \<or> editorCameraChanged (onError m s) a)
      \<longrightarrow> (\<exists>p. snd (handleCanvasChangeInternal al now a (onError m s)) = [Schedule p]))"
proof (intro conjI impI)
  assume "\<not> gated now (onError m s)
       \<and> (contentChanged al (onError m s) a \<or> viewerCameraChanged (onError m s) a
          \<or> editorCameraChanged (onError m s) a)"
  then show "\<exists>p. snd (handleCanvasChangeInternal al now a (onError m s)) = [Schedule p]"
    using schedule_when_any_change[of now "onError m s" al a] by blast
qed (simp_all add: onError_def gated_def)

theorem save_failure_clears_in_flight_witness:
  "isSavingRef (run exampleEnv (initialState [] False) editAndStartSaving)
   \<and> \<not> isSavingRef (onError (Some ''offline'')
        (run exampleEnv (initialState [] False) editAndStartSaving))
   \<and> saveState (onError (Some ''offline'')
        (run exampleEnv (initialState [] False) editAndStartSaving)) = Error (Some ''offline'')
   \<and> \<not> gated 9000 (onError (Some ''offline'')
        (run exampleEnv (initialState [] False) editAndStartSaving))
   \<and> contentChanged (arrLen exampleEnv) (onError (Some ''offline'')
        (run exampleEnv (initialState [] False) editAndStartSaving)) (edit 12)
   \<and> (\<exists>p. snd (handleCanvasChangeInternal (arrLen exampleEnv) 9000 (edit 12)
        (onError (Some ''offline'') (run exampleEnv (initialState [] False) editAndStartSaving)))
        = [Schedule p])"
proof -
  have h: "isSavingRef (run exampleEnv (initialState [] False) editAndStartSaving)"
    "\<not> gated 9000 (onError (Some ''offline'')
        (run exampleEnv (initialState [] False) editAndStartSaving))"
    "contentChanged (arrLen exampleEnv) (onError (Some ''offline'')
        (run exampleEnv (initialState [] False) editAndStartSaving)) (edit 12)"
    by (simp_all add: example_defs hook_defs change_defs heartbeatEffect_def Let_def)
  show ?thesis
    using save_failure_clears_in_flight[of exampleEnv "Some ''offline''"
        "run exampleEnv (initialState [] False) editAndStartSaving" 9000 "arrLen exampleEnv" "edit 12"] h
    by simp
qed

section \<open>The mirror during a drag\<close>



section \<open>The unlock gate\<close>

text \<open>
  C9. After a recomputation the document is unlocked exactly when the bound id is non-empty
  and not the default id, the name cell is a string that is non-empty after trimming, and
  the phone cell is a string that starts with "+" after trimming.
\<close>

theorem unlocked_iff_validated:
  "recomputeUnlock w customerColumns getCellData unlocked
   = (w \<noteq> [] \<and> w \<noteq> DEFAULT_DOCUMENT_WA_ID
      \<and> (\<exists>n. getCellData (findIndex (\<lambda>c. c = ''name'') customerColumns) 0 = Inr (CString n)
              \<and> trim n \<noteq> [])
      \<and> (\<exists>p. getCellData (findIndex (\<lambda>c. c = ''phone'') customerColumns) 0 = Inr (CString p)
              \<and> startsWithPlus (trim p)))"
  by (auto simp: recomputeUnlock_def nameOk_def phoneOk_def Let_def
      split: sum.splits cell.splits)

theorem unlocked_iff_validated_witness:
  "recomputeUnlock ''201'' [''name'', ''age'', ''phone'']
      (customerRow (CString [32, 65, 110, 110]) (CString [32, 43, 50, 49, 54])) False
   \<and> \<not> recomputeUnlock ''201'' [''name'', ''age'', ''phone'']
      (customerRow (CString [32, 9, 160]) (CString [43, 50, 49, 54])) True
   \<and> \<not> recomputeUnlock ''201'' [''name'', ''age'', ''phone'']
      (customerRow (CString [65, 110, 110]) (CString [48, 50, 49, 54])) True
   \<and> \<not> recomputeUnlock ''201'' [''name'', ''age'', ''phone'']
      (customerRow (CString [65, 110, 110]) (CNumber 216)) True
   \<and> \<not> recomputeUnlock [] [''name'', ''age'', ''phone'']
      (customerRow (CString [65, 110, 110]) (CString [43, 50, 49, 54])) True"
  using unlocked_iff_validated[of "''201''" "[''name'', ''age'', ''phone'']"
      "customerRow (CString [32, 65, 110, 110]) (CString [32, 43, 50, 49, 54])" False]
  by (simp add: customerRow_def recomputeUnlock_def DEFAULT_DOCUMENT_WA_ID_def nameOk_def phoneOk_def
      trim_def isWhiteSpace_def Let_def)

text \<open>
  C10. When reading the name cell or the phone cell throws, the recomputation ends locked,
  whatever the state was before.
\<close>

theorem unlock_fails_closed:
  assumes "getCellData (findIndex (\<lambda>c. c = ''name'') customerColumns) 0 = Inl err
           \<or> getCellData (findIndex (\<lambda>c. c = ''phone'') customerColumns) 0 = Inl err"
  shows "recomputeUnlock w customerColumns getCellData unlocked = False"
  using assms by (auto simp: recomputeUnlock_def Let_def split: sum.splits)

theorem unlock_fails_closed_witness:
  "failingRow (findIndex (\<lambda>c. c = ''phone'') [''name'', ''age'', ''phone'']) 0 = Inl ReadError
   \<and> recomputeUnlock ''201'' [''name'', ''age'', ''phone''] failingRow True = False"
proof -
  have h: "failingRow (findIndex (\<lambda>c. c = ''phone'') [''name'', ''age'', ''phone'']) 0 = Inl ReadError"
    by (simp add: failingRow_def)
  show ?thesis
    using unlock_fails_closed[of failingRow "[''name'', ''age'', ''phone'']" ReadError "''201''" True] h
    by simp
qed

end
